theory Spec2Isabelle
  imports Complex_Main
begin

section \<open>Python values, dictionaries and exceptions\<close>

text \<open>
  The values an attribute of a Settings object or an item of a combo box can hold.
  A Python float is carried as a real number and never computed with.
\<close>

datatype py_value = PyNone | PyBool bool | PyInt int | PyFloat real | PyStr string

text \<open>The \<open>__dict__\<close> of an instance: attribute name to value.\<close>

type_synonym py_dict = "string \<rightharpoonup> py_value"

datatype error = KeyError | TypeError | AttributeError | ValueError | OverflowError | LookupError

text \<open>Truth value testing and \<open>not\<close>, as Python defines them on these values.\<close>

fun truthy :: "py_value \<Rightarrow> bool" where
  "truthy PyNone = False"
| "truthy (PyBool b) = b"
| "truthy (PyInt i) = (i \<noteq> 0)"
| "truthy (PyFloat r) = (r \<noteq> 0)"
| "truthy (PyStr s) = (s \<noteq> [])"

definition py_not :: "py_value \<Rightarrow> py_value" where
  "py_not v = PyBool (\<not> truthy v)"

text \<open>\<open>sep.join(xs)\<close> of Python strings.\<close>

fun join :: "string \<Rightarrow> string list \<Rightarrow> string" where
  "join sep [] = []"
| "join sep [x] = x"
| "join sep (x # y # ys) = x @ sep @ join sep (y # ys)"

section \<open>Option descriptions (game/settings)\<close>

text \<open>
  \<open>OptionDescription\<close> is a frozen dataclass with the attributes page, section, text
  and detail, in the order in which \<open>boolean_option\<close> passes them to \<open>BooleanOption\<close>;
  \<open>BooleanOption\<close> adds invert. The other three subclasses are known here by the
  attributes the settings window reads: choices (a dict from display text to value, kept
  as its list of items in insertion order), min, max and divisor. The last constructor
  is a description that is an instance of none of the four subclasses. The binder tells
  the kinds apart with \<open>isinstance\<close>, which an instance of a subclass passes as well:
  such an instance is taken as an instance of the class it derives from.
\<close>

datatype description =
    is_BooleanOption: BooleanOption string string string "string option" (invert: bool)
  | is_ChoicesOption: ChoicesOption string string string "string option"
      (choices: "(string \<times> py_value) list")
  | is_BoundedFloatOption: BoundedFloatOption string string string "string option"
      (min_float: real) (max_float: real) (divisor: int)
  | is_BoundedIntOption: BoundedIntOption string string string "string option"
      (min_int: int) (max_int: int)
  | OptionDescription string string string "string option"

fun page :: "description \<Rightarrow> string" where
  "page (BooleanOption p s t d i) = p"
| "page (ChoicesOption p s t d c) = p"
| "page (BoundedFloatOption p s t d lo hi k) = p"
| "page (BoundedIntOption p s t d lo hi) = p"
| "page (OptionDescription p s t d) = p"

fun "section" :: "description \<Rightarrow> string" where
  "section (BooleanOption p s t d i) = s"
| "section (ChoicesOption p s t d c) = s"
| "section (BoundedFloatOption p s t d lo hi k) = s"
| "section (BoundedIntOption p s t d lo hi) = s"
| "section (OptionDescription p s t d) = s"

fun "text" :: "description \<Rightarrow> string" where
  "text (BooleanOption p s t d i) = t"
| "text (ChoicesOption p s t d c) = t"
| "text (BoundedFloatOption p s t d lo hi k) = t"
| "text (BoundedIntOption p s t d lo hi) = t"
| "text (OptionDescription p s t d) = t"

fun detail :: "description \<Rightarrow> string option" where
  "detail (BooleanOption p s t d i) = d"
| "detail (ChoicesOption p s t d c) = d"
| "detail (BoundedFloatOption p s t d lo hi k) = d"
| "detail (BoundedIntOption p s t d lo hi) = d"
| "detail (OptionDescription p s t d) = d"

text \<open>
  Modelled from the spec: \<open>ChoicesOption.text_for_value\<close>, whose source
  (game/settings/choicesoption.py) is not among the files at hand. The spec calls it the
  reverse lookup from a stored value to its display text, the first match in iteration
  order. For a value that no text maps to the spec says nothing: the lookup then yields
  no text.
\<close>

fun text_for_value :: "(string \<times> py_value) list \<Rightarrow> py_value \<Rightarrow> string option" where
  "text_for_value [] v = None"
| "text_for_value ((t, x) # rest) v = (if v = x then Some t else text_for_value rest v)"

section \<open>Declaring a boolean option (game/settings/booleanoption.py)\<close>

text \<open>
  The key under which a description hangs in a field's metadata. Its string is defined
  in optiondescription.py; only its identity matters here.
\<close>

datatype metadata_key = SETTING_DESCRIPTION_KEY

text \<open>
  What \<open>dataclasses.field\<close> returns: the default, the metadata mapping and the
  remaining keyword options.
\<close>

record Field =
  default :: py_value
  metadata :: "metadata_key \<rightharpoonup> description"
  options :: "(string \<times> py_value) list"

text \<open>
  \<open>dataclasses.field(*, default, default_factory, init, repr, hash, compare, metadata)\<close>,
  called with a default and a metadata mapping and the caller's further keywords. A
  keyword it does not know, or one that repeats default or metadata, is a TypeError; a
  \<open>default_factory\<close> beside a default is a ValueError.
\<close>

definition field_keywords :: "string list" where
  "field_keywords = [''default_factory'', ''init'', ''repr'', ''hash'', ''compare'']"

definition field ::
  "(metadata_key \<rightharpoonup> description) \<Rightarrow> py_value \<Rightarrow> (string \<times> py_value) list \<Rightarrow> error + Field" where
  "field = (\<lambda>metadata default kwargs.
     if list_ex (\<lambda>k. k \<notin> set field_keywords) (map fst kwargs) then Inl TypeError
     else if ''default_factory'' \<in> set (map fst kwargs) then Inl ValueError
     else Inr \<lparr>default = default, metadata = metadata, options = kwargs\<rparr>)"

definition boolean_option ::
  "string \<Rightarrow> string \<Rightarrow> string \<Rightarrow> bool \<Rightarrow> bool \<Rightarrow> string option \<Rightarrow> (string \<times> py_value) list
    \<Rightarrow> error + Field" where
  "boolean_option = (\<lambda>text page section default invert detail kwargs.
     field [SETTING_DESCRIPTION_KEY \<mapsto> BooleanOption page section text detail invert]
       (PyBool default) kwargs)"

text \<open>
  A dataclass body is the list of its annotated assignments \<open>name: T = field(...)\<close>, in
  order; a name assigned twice keeps its last field. \<open>dataclass_field\<close> is the field a
  name stands for. \<open>dataclass_init\<close> is the \<open>__dict__\<close> of an instance created with no
  arguments: the generated \<open>__init__\<close> assigns its default to every field whose \<open>init\<close>
  option is true (it is when the keyword was not given). A field declared with a false
  \<open>init\<close> is not assigned and is absent from the \<open>__dict__\<close> of the instance: reading
  the attribute then falls back on the class.
\<close>

type_synonym class_body = "(string \<times> Field) list"

definition dataclass_field :: "class_body \<Rightarrow> string \<Rightarrow> Field option" where
  "dataclass_field body name = map_of (rev body) name"

definition field_init :: "Field \<Rightarrow> bool" where
  "field_init f = (case map_of (options f) ''init'' of None \<Rightarrow> True | Some v \<Rightarrow> truthy v)"

definition dataclass_init :: "class_body \<Rightarrow> py_dict" where
  "dataclass_init body =
     (\<lambda>name. case dataclass_field body name of
                None \<Rightarrow> None
              | Some f \<Rightarrow> if field_init f then Some (default f) else None)"

section \<open>The toolkit's controls\<close>

text \<open>
  The controls are the toolkit's (Qt); they are modelled by the state the binder and
  the user can change, with the behaviour the toolkit documents. A slot connected to a
  signal is kept as the closure it is: the local function of the binder that was
  connected, with the name it captured. A method that may raise a signal returns the
  control and the argument of the signal when it is raised. While the binder sets a
  control up no closure is connected yet (it connects last), so the signal reaches
  nothing and the binder keeps the control only.
\<close>

datatype alignment = NoAlignment | AlignRight

datatype closure =
    on_toggle_closure string description
  | combobox_on_changed_closure string
  | float_on_changed_closure string
  | spinner_on_changed_closure string

text \<open>
  An argument handed to a method of the toolkit is converted to the C++ type of the
  parameter. The model converts a Python bool to a bool and a Python int within the
  range of a 32-bit int to an int; an int outside that range is an OverflowError, and
  any other argument is reported as a TypeError. The data of a combo box item may be
  any value and is kept as a variant, which holds an int as a 64-bit integer: an int
  outside that range is an OverflowError.
\<close>

fun cpp_bool :: "py_value \<Rightarrow> error + bool" where
  "cpp_bool (PyBool b) = Inr b"
| "cpp_bool v = Inl TypeError"

fun cpp_int :: "py_value \<Rightarrow> error + int" where
  "cpp_int (PyInt i) = (if - (2 ^ 31) \<le> i \<and> i < 2 ^ 31 then Inr i else Inl OverflowError)"
| "cpp_int v = Inl TypeError"

fun qvariant :: "py_value \<Rightarrow> error + py_value" where
  "qvariant (PyInt i) = (if - (2 ^ 63) \<le> i \<and> i < 2 ^ 63 then Inr (PyInt i) else Inl OverflowError)"
| "qvariant v = Inr v"

subsection \<open>QCheckBox\<close>

record QCheckBox =
  checked :: bool
  toggled :: "closure list"

definition QCheckBox_new :: QCheckBox where
  "QCheckBox_new = \<lparr>checked = False, toggled = []\<rparr>"

text \<open>\<open>setChecked\<close> returns the check box and the argument of \<open>toggled\<close> when the
  state changed and the signal is raised.\<close>

definition setChecked :: "QCheckBox \<Rightarrow> bool \<Rightarrow> QCheckBox \<times> bool option" where
  "setChecked cb b = (cb\<lparr>checked := b\<rparr>, if b \<noteq> checked cb then Some b else None)"

subsection \<open>QComboBox (not editable)\<close>

record QComboBox =
  items :: "(string \<times> py_value) list"
  currentIndex :: int
  currentIndexChanged :: "closure list"

definition QComboBox_new :: QComboBox where
  "QComboBox_new = \<lparr>items = [], currentIndex = - 1, currentIndexChanged = []\<rparr>"

definition setCurrentIndex :: "QComboBox \<Rightarrow> int \<Rightarrow> QComboBox \<times> int option" where
  "setCurrentIndex cb i =
     (let j = (if 0 \<le> i \<and> i < int (length (items cb)) then i else - 1)
      in (cb\<lparr>currentIndex := j\<rparr>, if j \<noteq> currentIndex cb then Some j else None))"

text \<open>\<open>addItem(text, userData)\<close> takes the data as a variant, which may raise, and
  appends an item; the first item of an empty combo box becomes the current one.\<close>

definition addItem ::
  "QComboBox \<Rightarrow> string \<Rightarrow> py_value \<Rightarrow> error + (QComboBox \<times> int option)" where
  "addItem cb t userData =
     (case qvariant userData of
        Inl e \<Rightarrow> Inl e
      | Inr u \<Rightarrow>
          (let cb' = cb\<lparr>items := items cb @ [(t, u)]\<rparr>
           in Inr (if items cb = [] \<and> currentIndex cb = - 1 then setCurrentIndex cb' 0
                   else (cb', None))))"

fun find_index_from :: "int \<Rightarrow> string \<Rightarrow> (string \<times> py_value) list \<Rightarrow> int" where
  "find_index_from i t [] = - 1"
| "find_index_from i t (item # rest) = (if fst item = t then i else find_index_from (i + 1) t rest)"

definition findText :: "QComboBox \<Rightarrow> string \<Rightarrow> int" where
  "findText cb t = find_index_from 0 t (items cb)"

definition setCurrentText :: "QComboBox \<Rightarrow> string \<Rightarrow> QComboBox \<times> int option" where
  "setCurrentText cb t =
     (let i = findText cb t in if i > - 1 then setCurrentIndex cb i else (cb, None))"

definition itemData :: "QComboBox \<Rightarrow> int \<Rightarrow> py_value" where
  "itemData cb index =
     (if 0 \<le> index \<and> index < int (length (items cb)) then snd (items cb ! nat index) else PyNone)"

definition currentText :: "QComboBox \<Rightarrow> string" where
  "currentText cb =
     (if 0 \<le> currentIndex cb \<and> currentIndex cb < int (length (items cb))
      then fst (items cb ! nat (currentIndex cb)) else [])"

subsection \<open>QSpinBox\<close>

record QSpinBox =
  minimum :: int
  maximum :: int
  spin_value :: int
  valueChanged :: "closure list"

definition QSpinBox_new :: QSpinBox where
  "QSpinBox_new = \<lparr>minimum = 0, maximum = 99, spin_value = 0, valueChanged = []\<rparr>"

definition bound :: "QSpinBox \<Rightarrow> int \<Rightarrow> int" where
  "bound sb v = max (minimum sb) (min (maximum sb) v)"

text \<open>\<open>setValue\<close> forces the value into the range and raises \<open>valueChanged\<close> with the
  new value when it differs from the old one.\<close>

definition setValue :: "QSpinBox \<Rightarrow> int \<Rightarrow> QSpinBox \<times> int option" where
  "setValue sb v =
     (let v' = bound sb v
      in (sb\<lparr>spin_value := v'\<rparr>, if v' \<noteq> spin_value sb then Some v' else None))"

definition setRange :: "QSpinBox \<Rightarrow> int \<Rightarrow> int \<Rightarrow> QSpinBox \<times> int option" where
  "setRange sb lo hi =
     (let sb' = sb\<lparr>minimum := lo, maximum := (if lo < hi then hi else lo)\<rparr>
      in setValue sb' (spin_value sb'))"

definition setMinimum :: "QSpinBox \<Rightarrow> int \<Rightarrow> QSpinBox \<times> int option" where
  "setMinimum sb m = setRange sb m (if maximum sb > m then maximum sb else m)"

definition setMaximum :: "QSpinBox \<Rightarrow> int \<Rightarrow> QSpinBox \<times> int option" where
  "setMaximum sb m = setRange sb (if minimum sb < m then minimum sb else m) m"

subsection \<open>FloatSpinSlider\<close>

text \<open>
  Modelled from the spec: \<open>FloatSpinSlider\<close> (qt_ui/widgets/spinsliders.py, not among
  the files at hand), which the spec describes as a combined numeric-entry-plus-slider
  control constrained to [min, max] that shows the stored value scaled by the divisor
  and whose value already has the scale applied. The model keeps the arguments of the
  constructor and the current value of the control; it does no arithmetic on them.
\<close>

record FloatSpinSlider =
  slider_minimum :: real
  slider_maximum :: real
  slider_value :: py_value
  slider_divisor :: int
  slider_valueChanged :: "closure list"

definition FloatSpinSlider_new :: "real \<Rightarrow> real \<Rightarrow> py_value \<Rightarrow> int \<Rightarrow> FloatSpinSlider" where
  "FloatSpinSlider_new lo hi initial k =
     \<lparr>slider_minimum = lo, slider_maximum = hi, slider_value = initial, slider_divisor = k,
      slider_valueChanged = []\<rparr>"

subsection \<open>The grid\<close>

datatype widget =
    is_QLabel: QLabel string
  | is_CheckBox: CheckBox QCheckBox
  | is_ComboBox: ComboBox QComboBox
  | is_SpinSlider: SpinSlider FloatSpinSlider
  | is_SpinBox: SpinBox QSpinBox


text \<open>A grid layout is the list of its cells, in the order in which they were added:
  the control, its row, its column and its alignment.\<close>

type_synonym layout = "(widget \<times> nat \<times> nat \<times> alignment) list"

definition addWidget :: "layout \<Rightarrow> widget \<Rightarrow> nat \<Rightarrow> nat \<Rightarrow> alignment \<Rightarrow> layout" where
  "addWidget self w row column al = self @ [(w, row, column, al)]"

definition addLayout :: "layout \<Rightarrow> widget \<Rightarrow> nat \<Rightarrow> nat \<Rightarrow> alignment \<Rightarrow> layout" where
  "addLayout self w row column al = self @ [(w, row, column, al)]"

section \<open>The binder (qt_ui/windows/settings/QSettingsWindow.py)\<close>

text \<open>
  \<open>AutoSettingsLayout\<close> is a grid layout that keeps a reference to the Settings object
  of the session. Binding only reads that object; the closures it connects write to it.
  So the functions below take the \<open>__dict__\<close> of the Settings object (\<open>settings\<close>) beside
  the grid (\<open>self\<close>), and a closure takes the dictionary and returns the changed one.
  \<open>textwrap.wrap\<close> is the standard library's and is passed in as \<open>wrap\<close>.
\<close>

definition add_label ::
  "(string \<Rightarrow> nat \<Rightarrow> string list) \<Rightarrow> layout \<Rightarrow> nat \<Rightarrow> description \<Rightarrow> layout" where
  "add_label wrap self row description =
     (let label_text =
        (case detail description of
           None \<Rightarrow> text description
         | Some d \<Rightarrow>
             (let wrapped = join ''<br />'' (wrap d 55)
              in text description @ ''<br /><strong>'' @ wrapped @ ''</strong>''))
      in addWidget self (QLabel label_text) row 0 NoAlignment)"

subsection \<open>Check box\<close>

definition on_toggle :: "string \<Rightarrow> description \<Rightarrow> bool \<Rightarrow> py_dict \<Rightarrow> py_dict" where
  "on_toggle name description =
     (\<lambda>value settings.
        let value = (if invert description then \<not> value else value)
        in settings(name \<mapsto> PyBool value))"

definition add_checkbox_for ::
  "py_dict \<Rightarrow> layout \<Rightarrow> nat \<Rightarrow> string \<Rightarrow> description \<Rightarrow> error + layout" where
  "add_checkbox_for settings self row name description =
     (case settings name of
        None \<Rightarrow> Inl KeyError
      | Some stored \<Rightarrow>
          if \<not> is_BooleanOption description then Inl AttributeError
          else
            (case cpp_bool (if invert description then py_not stored else stored) of
               Inl e \<Rightarrow> Inl e
             | Inr value \<Rightarrow>
                 (let checkbox = fst (setChecked QCheckBox_new value);
                      checkbox = checkbox\<lparr>toggled := toggled checkbox @ [on_toggle_closure name description]\<rparr>
                  in Inr (addWidget self (CheckBox checkbox) row 1 AlignRight))))"

subsection \<open>Combo box\<close>

text \<open>
  When \<open>text_for_value\<close> yields no text for the stored value, a case on which the spec
  is silent, binding is taken to fail with LookupError.
\<close>

definition combobox_on_changed :: "string \<Rightarrow> QComboBox \<Rightarrow> int \<Rightarrow> py_dict \<Rightarrow> py_dict" where
  "combobox_on_changed name combobox =
     (\<lambda>index settings. settings(name \<mapsto> itemData combobox index))"

text \<open>The loop \<open>for text, value in description.choices.items(): combobox.addItem(text, value)\<close>;
  it stops at the first value that the toolkit cannot take as item data.\<close>

fun add_combobox_items :: "QComboBox \<Rightarrow> (string \<times> py_value) list \<Rightarrow> error + QComboBox" where
  "add_combobox_items combobox [] = Inr combobox"
| "add_combobox_items combobox (item # rest) =
     (case addItem combobox (fst item) (snd item) of
        Inl e \<Rightarrow> Inl e
      | Inr r \<Rightarrow> add_combobox_items (fst r) rest)"

definition add_combobox_for ::
  "py_dict \<Rightarrow> layout \<Rightarrow> nat \<Rightarrow> string \<Rightarrow> description \<Rightarrow> error + layout" where
  "add_combobox_for settings self row name description =
     (if \<not> is_ChoicesOption description then Inl AttributeError
      else
        (case add_combobox_items QComboBox_new (choices description) of
           Inl e \<Rightarrow> Inl e
         | Inr combobox \<Rightarrow>
        (case settings name of
           None \<Rightarrow> Inl KeyError
         | Some stored \<Rightarrow>
        (case text_for_value (choices description) stored of
           None \<Rightarrow> Inl LookupError
         | Some t \<Rightarrow>
             (let combobox = fst (setCurrentText combobox t);
                  combobox = combobox\<lparr>currentIndexChanged :=
                    currentIndexChanged combobox @ [combobox_on_changed_closure name]\<rparr>
              in Inr (addWidget self (ComboBox combobox) row 1 AlignRight))))))"

subsection \<open>Float spin slider\<close>

definition float_on_changed :: "string \<Rightarrow> FloatSpinSlider \<Rightarrow> py_dict \<Rightarrow> py_dict" where
  "float_on_changed name spinner = (\<lambda>settings. settings(name \<mapsto> slider_value spinner))"

definition add_float_spin_slider_for ::
  "py_dict \<Rightarrow> layout \<Rightarrow> nat \<Rightarrow> string \<Rightarrow> description \<Rightarrow> error + layout" where
  "add_float_spin_slider_for settings self row name description =
     (if \<not> is_BoundedFloatOption description then Inl AttributeError
      else
        (case settings name of
           None \<Rightarrow> Inl KeyError
         | Some stored \<Rightarrow>
             (let spinner = FloatSpinSlider_new (min_float description) (max_float description)
                    stored (divisor description);
                  spinner = spinner\<lparr>slider_valueChanged :=
                    slider_valueChanged spinner @ [float_on_changed_closure name]\<rparr>
              in Inr (addLayout self (SpinSlider spinner) row 1 AlignRight))))"

subsection \<open>Spinner\<close>

definition spinner_on_changed :: "string \<Rightarrow> int \<Rightarrow> py_dict \<Rightarrow> py_dict" where
  "spinner_on_changed name = (\<lambda>value settings. settings(name \<mapsto> PyInt value))"

definition add_spinner_for ::
  "py_dict \<Rightarrow> layout \<Rightarrow> nat \<Rightarrow> string \<Rightarrow> description \<Rightarrow> error + layout" where
  "add_spinner_for settings self row name description =
     (if \<not> is_BoundedIntOption description then Inl AttributeError
      else
        (case cpp_int (PyInt (min_int description)) of
           Inl e \<Rightarrow> Inl e
         | Inr lo \<Rightarrow>
        (case cpp_int (PyInt (max_int description)) of
           Inl e \<Rightarrow> Inl e
         | Inr hi \<Rightarrow>
        (case settings name of
           None \<Rightarrow> Inl KeyError
         | Some stored \<Rightarrow>
        (case cpp_int stored of
           Inl e \<Rightarrow> Inl e
         | Inr v \<Rightarrow>
             (let spinner = fst (setMinimum QSpinBox_new lo);
                  spinner = fst (setMaximum spinner hi);
                  spinner = fst (setValue spinner v);
                  spinner = spinner\<lparr>valueChanged :=
                    valueChanged spinner @ [spinner_on_changed_closure name]\<rparr>
              in Inr (addWidget self (SpinBox spinner) row 1 AlignRight)))))))"

subsection \<open>The constructor\<close>

text \<open>
  The body of the loop of \<open>__init__\<close> for one row, and the loop over the pairs that
  \<open>Settings.fields(page, section)\<close> returned. \<open>Settings.fields\<close> belongs to the Settings
  class, whose source is not among the files at hand: it is passed in.
\<close>

definition AutoSettingsLayout_row ::
  "(string \<Rightarrow> nat \<Rightarrow> string list) \<Rightarrow> py_dict \<Rightarrow> layout \<Rightarrow> nat \<Rightarrow> string \<Rightarrow> description
    \<Rightarrow> error + layout" where
  "AutoSettingsLayout_row wrap settings self row name description =
     (let self = add_label wrap self row description
      in if is_BooleanOption description then add_checkbox_for settings self row name description
         else if is_ChoicesOption description then add_combobox_for settings self row name description
         else if is_BoundedFloatOption description
           then add_float_spin_slider_for settings self row name description
         else if is_BoundedIntOption description then add_spinner_for settings self row name description
         else Inl TypeError)"

fun AutoSettingsLayout_rows ::
  "(string \<Rightarrow> nat \<Rightarrow> string list) \<Rightarrow> py_dict \<Rightarrow> layout \<Rightarrow> nat \<Rightarrow> (string \<times> description) list
    \<Rightarrow> error + layout" where
  "AutoSettingsLayout_rows wrap settings self row [] = Inr self"
| "AutoSettingsLayout_rows wrap settings self row ((name, description) # rest) =
     (case AutoSettingsLayout_row wrap settings self row name description of
        Inl e \<Rightarrow> Inl e
      | Inr self' \<Rightarrow> AutoSettingsLayout_rows wrap settings self' (Suc row) rest)"

definition AutoSettingsLayout_init ::
  "(string \<Rightarrow> nat \<Rightarrow> string list) \<Rightarrow> (string \<Rightarrow> string \<Rightarrow> error + (string \<times> description) list)
    \<Rightarrow> string \<Rightarrow> string \<Rightarrow> py_dict \<Rightarrow> error + layout" where
  "AutoSettingsLayout_init wrap Settings_fields =
     (\<lambda>page section settings.
        case Settings_fields page section of
          Inl e \<Rightarrow> Inl e
        | Inr pairs \<Rightarrow> AutoSettingsLayout_rows wrap settings [] 0 pairs)"

subsection \<open>What the user does\<close>

text \<open>
  A signal calls the closures connected to it, in the order of connection, with the
  control as it is then.
\<close>

definition call :: "closure \<Rightarrow> widget \<Rightarrow> py_value \<Rightarrow> py_dict \<Rightarrow> py_dict" where
  "call c w arg settings =
     (case c of
        on_toggle_closure name description \<Rightarrow>
          (case arg of PyBool value \<Rightarrow> on_toggle name description value settings | _ \<Rightarrow> settings)
      | combobox_on_changed_closure name \<Rightarrow>
          (case w of
             ComboBox combobox \<Rightarrow>
               (case arg of PyInt index \<Rightarrow> combobox_on_changed name combobox index settings
                | _ \<Rightarrow> settings)
           | _ \<Rightarrow> settings)
      | float_on_changed_closure name \<Rightarrow>
          (case w of SpinSlider spinner \<Rightarrow> float_on_changed name spinner settings | _ \<Rightarrow> settings)
      | spinner_on_changed_closure name \<Rightarrow>
          (case arg of PyInt value \<Rightarrow> spinner_on_changed name value settings | _ \<Rightarrow> settings))"

definition emit :: "closure list \<Rightarrow> widget \<Rightarrow> py_value \<Rightarrow> py_dict \<Rightarrow> py_dict" where
  "emit slots w arg settings = fold (\<lambda>c. call c w arg) slots settings"

text \<open>The user clicks a check box: its state flips and \<open>toggled\<close> is raised.\<close>

definition click :: "QCheckBox \<Rightarrow> py_dict \<Rightarrow> QCheckBox \<times> py_dict" where
  "click cb settings =
     (case setChecked cb (\<not> checked cb) of
        (cb', None) \<Rightarrow> (cb', settings)
      | (cb', Some b) \<Rightarrow> (cb', emit (toggled cb') (CheckBox cb') (PyBool b) settings))"

text \<open>The user picks the item at \<open>index\<close> of the list of a combo box;
  \<open>currentIndexChanged\<close> is raised when that changes the current index.\<close>

definition select_item :: "QComboBox \<Rightarrow> int \<Rightarrow> py_dict \<Rightarrow> QComboBox \<times> py_dict" where
  "select_item cb index settings =
     (if 0 \<le> index \<and> index < int (length (items cb))
      then (case setCurrentIndex cb index of
              (cb', None) \<Rightarrow> (cb', settings)
            | (cb', Some i) \<Rightarrow> (cb', emit (currentIndexChanged cb') (ComboBox cb') (PyInt i) settings))
      else (cb, settings))"

text \<open>The user steps a spin box to \<open>v\<close> or types \<open>v\<close> into it.\<close>

definition edit_value :: "QSpinBox \<Rightarrow> int \<Rightarrow> py_dict \<Rightarrow> QSpinBox \<times> py_dict" where
  "edit_value sb v settings =
     (case setValue sb v of
        (sb', None) \<Rightarrow> (sb', settings)
      | (sb', Some x) \<Rightarrow> (sb', emit (valueChanged sb') (SpinBox sb') (PyInt x) settings))"

fun edit_values :: "QSpinBox \<Rightarrow> int list \<Rightarrow> py_dict \<Rightarrow> QSpinBox \<times> py_dict" where
  "edit_values sb [] settings = (sb, settings)"
| "edit_values sb (v # vs) settings =
     (case edit_value sb v settings of (sb', settings') \<Rightarrow> edit_values sb' vs settings')"

fun select_items :: "QComboBox \<Rightarrow> int list \<Rightarrow> py_dict \<Rightarrow> QComboBox \<times> py_dict" where
  "select_items cb [] settings = (cb, settings)"
| "select_items cb (i # rest) settings =
     (case select_item cb i settings of (cb', settings') \<Rightarrow> select_items cb' rest settings')"

text \<open>The user picks the item that shows the text \<open>t\<close>.\<close>

definition select_text :: "QComboBox \<Rightarrow> string \<Rightarrow> py_dict \<Rightarrow> QComboBox \<times> py_dict" where
  "select_text cb t settings = select_item cb (findText cb t) settings"

text \<open>The user moves a float spin slider: the control holds the new value \<open>v\<close> and
  raises \<open>valueChanged\<close>.\<close>

definition move_slider :: "FloatSpinSlider \<Rightarrow> py_value \<Rightarrow> py_dict \<Rightarrow> FloatSpinSlider \<times> py_dict" where
  "move_slider sp v settings =
     (let sp' = sp\<lparr>slider_value := v\<rparr>
      in (sp', emit (slider_valueChanged sp') (SpinSlider sp') PyNone settings))"

section \<open>Ground unit types (game/dcs/groundunittype.py)\<close>

text \<open>
  A \<open>GroundUnitType\<close> is taken as its \<open>__dict__\<close>, from attribute name to value; the
  values are of any type \<open>'v\<close>. The class keeps \<open>_by_name\<close>, \<open>_by_unit_type\<close> (a
  \<open>defaultdict(list)\<close>: a key not yet used stands for the empty list) and, from its base
  class, \<open>_loaded\<close>. A method returns its result, or the exception it raised, with the
  class as it has left it. \<open>_load_all\<close> is the base class's and is passed in.
\<close>

type_synonym 'v attributes = "string \<rightharpoonup> 'v"

record 'v GroundUnitType_class =
  by_name :: "'v \<rightharpoonup> 'v attributes"
  by_unit_type :: "'v \<Rightarrow> 'v attributes list"
  loaded :: bool

definition GroundUnitType_register ::
  "'v GroundUnitType_class \<Rightarrow> 'v attributes \<Rightarrow> (error + unit) \<times> 'v GroundUnitType_class" where
  "GroundUnitType_register cls unit_type =
     (case unit_type ''variant_id'' of
        None \<Rightarrow> (Inl AttributeError, cls)
      | Some variant_id \<Rightarrow>
          (let cls = cls\<lparr>by_name := (by_name cls)(variant_id \<mapsto> unit_type)\<rparr>
           in case unit_type ''dcs_unit_type'' of
                None \<Rightarrow> (Inl AttributeError, cls)
              | Some dcs_unit_type \<Rightarrow>
                  (Inr (), cls\<lparr>by_unit_type := (by_unit_type cls)
                     (dcs_unit_type := by_unit_type cls dcs_unit_type @ [unit_type])\<rparr>)))"

definition GroundUnitType_named ::
  "('v GroundUnitType_class \<Rightarrow> (error + unit) \<times> 'v GroundUnitType_class)
    \<Rightarrow> 'v GroundUnitType_class \<Rightarrow> 'v \<Rightarrow> (error + 'v attributes) \<times> 'v GroundUnitType_class" where
  "GroundUnitType_named load_all cls name =
     (case (if \<not> loaded cls then load_all cls else (Inr (), cls)) of
        (Inl e, cls') \<Rightarrow> (Inl e, cls')
      | (Inr u, cls') \<Rightarrow>
          (case by_name cls' name of
             None \<Rightarrow> (Inl KeyError, cls')
           | Some unit_type \<Rightarrow> (Inr unit_type, cls')))"

text \<open>\<open>__setstate__(self, state)\<close>: \<open>self\<close> is the \<open>__dict__\<close> of the instance being
  restored, and the result is that \<open>__dict__\<close> afterwards.\<close>

definition GroundUnitType_setstate ::
  "('v GroundUnitType_class \<Rightarrow> (error + unit) \<times> 'v GroundUnitType_class)
    \<Rightarrow> 'v GroundUnitType_class \<Rightarrow> 'v attributes \<Rightarrow> 'v attributes
    \<Rightarrow> (error + 'v attributes) \<times> 'v GroundUnitType_class" where
  "GroundUnitType_setstate load_all cls self state =
     (case state ''variant_id'' of
        None \<Rightarrow> (Inl KeyError, cls)
      | Some variant_id \<Rightarrow>
          (case GroundUnitType_named load_all cls variant_id of
             (Inl e, cls') \<Rightarrow> (Inl e, cls')
           | (Inr updated, cls') \<Rightarrow>
               (let state = state ++ updated
                in (Inr (self ++ state), cls'))))"

section \<open>Loading persisted settings\<close>


section \<open>What the spec asks of the binder\<close>


text \<open>
  The toolkit can take the data of the description: the description is of one of the
  four handled kinds, every value among the choices of a Choices option can be item
  data, and the two bounds of a BoundedInt option fit the 32-bit int of the toolkit.
\<close>

fun toolkit_accepts :: "description \<Rightarrow> bool" where
  "toolkit_accepts (BooleanOption p s t d i) = True"
| "toolkit_accepts (ChoicesOption p s t d c) = list_all (\<lambda>item. qvariant (snd item) = Inr (snd item)) c"
| "toolkit_accepts (BoundedFloatOption p s t d lo hi k) = True"
| "toolkit_accepts (BoundedIntOption p s t d lo hi) =
     (- (2 ^ 31) \<le> lo \<and> lo < 2 ^ 31 \<and> - (2 ^ 31) \<le> hi \<and> hi < 2 ^ 31)"
| "toolkit_accepts (OptionDescription p s t d) = False"

text \<open>
  The toolkit can take the data of the description, and the Settings object holds,
  under \<open>name\<close>, a value of the kind the description declares: a bool for a Boolean
  option, one of the choices' values for a Choices option, a float for a BoundedFloat
  option, and for a BoundedInt option an int that fits the 32-bit int of the toolkit.
\<close>

fun well_stored :: "py_dict \<Rightarrow> string \<Rightarrow> description \<Rightarrow> bool" where
  "well_stored settings name (BooleanOption p s t d i) =
     (case settings name of Some (PyBool b) \<Rightarrow> True | _ \<Rightarrow> False)"
| "well_stored settings name (ChoicesOption p s t d c) =
     (toolkit_accepts (ChoicesOption p s t d c)
      \<and> (case settings name of Some v \<Rightarrow> v \<in> snd ` set c | None \<Rightarrow> False))"
| "well_stored settings name (BoundedFloatOption p s t d lo hi k) =
     (case settings name of Some (PyFloat r) \<Rightarrow> True | _ \<Rightarrow> False)"
| "well_stored settings name (BoundedIntOption p s t d lo hi) =
     (toolkit_accepts (BoundedIntOption p s t d lo hi)
      \<and> (case settings name of Some (PyInt v) \<Rightarrow> - (2 ^ 31) \<le> v \<and> v < 2 ^ 31 | _ \<Rightarrow> False))"
| "well_stored settings name (OptionDescription p s t d) = False"

text \<open>
  The invariant of a bound combo box under the user's selections: it holds the items
  \<open>its\<close> and the binder's callback for \<open>name\<close>, an item is current, and the Settings
  object stores the value of the current item under \<open>name\<close>.
\<close>

definition shows_stored :: "string \<Rightarrow> (string \<times> py_value) list \<Rightarrow> QComboBox \<Rightarrow> py_dict \<Rightarrow> bool" where
  "shows_stored name its cb s =
     (items cb = its \<and> currentIndexChanged cb = [combobox_on_changed_closure name]
      \<and> 0 \<le> currentIndex cb \<and> currentIndex cb < int (length its)
      \<and> s name = Some (snd (its ! nat (currentIndex cb))))"

section \<open>Properties\<close>

subsection \<open>What a successful binding has built\<close>

lemma add_checkbox_for_Inr:
  assumes "add_checkbox_for settings self row name d = Inr l"
  shows "\<exists>stored b. settings name = Some stored \<and> is_BooleanOption d
           \<and> cpp_bool (if invert d then py_not stored else stored) = Inr b
           \<and> l = self @ [(CheckBox \<lparr>checked = b, toggled = [on_toggle_closure name d]\<rparr>, row, 1, AlignRight)]"
  using assms
  by (auto simp: add_checkbox_for_def setChecked_def QCheckBox_new_def addWidget_def
           split: option.splits if_splits sum.splits)

lemma qvariant_Inr: "qvariant v = Inr u \<Longrightarrow> u = v"
  by (cases v) (auto split: if_splits)

lemma addItem_Inr:
  assumes "addItem cb t u = Inr r"
  shows "fst r = cb\<lparr>items := items cb @ [(t, u)],
          currentIndex := (if items cb = [] \<and> currentIndex cb = - 1 then 0 else currentIndex cb)\<rparr>"
proof -
  from assms obtain u' where q: "qvariant u = Inr u'"
    by (auto simp: addItem_def split: sum.splits)
  have "u' = u" by (rule qvariant_Inr [OF q])
  then show ?thesis
    using assms q by (auto simp: addItem_def setCurrentIndex_def Let_def)
qed

lemma addItem_accepted:
  assumes "qvariant u = Inr u"
  shows "\<exists>r. addItem cb t u = Inr r"
  using assms by (simp add: addItem_def Let_def)

lemma add_combobox_items_Inr:
  assumes "add_combobox_items cb xs = Inr cb'"
  shows "cb' = cb\<lparr>items := items cb @ xs,
          currentIndex := (if items cb = [] \<and> currentIndex cb = - 1 \<and> xs \<noteq> [] then 0 else currentIndex cb)\<rparr>"
  using assms
proof (induction xs arbitrary: cb)
  case Nil
  then show ?case by simp
next
  case (Cons x xs)
  from Cons.prems obtain r where q: "addItem cb (fst x) (snd x) = Inr r"
    and rest: "add_combobox_items (fst r) xs = Inr cb'"
    by (auto split: sum.splits)
  let ?cb1 = "fst r"
  have cb1: "?cb1 = cb\<lparr>items := items cb @ [(fst x, snd x)],
          currentIndex := (if items cb = [] \<and> currentIndex cb = - 1 then 0 else currentIndex cb)\<rparr>"
    by (rule addItem_Inr [OF q])
  have "cb' = ?cb1\<lparr>items := items ?cb1 @ xs,
          currentIndex := (if items ?cb1 = [] \<and> currentIndex ?cb1 = - 1 \<and> xs \<noteq> []
                           then 0 else currentIndex ?cb1)\<rparr>"
    by (rule Cons.IH [OF rest])
  also have "\<dots> = cb\<lparr>items := items cb @ x # xs,
          currentIndex := (if items cb = [] \<and> currentIndex cb = - 1 \<and> x # xs \<noteq> [] then 0 else currentIndex cb)\<rparr>"
    by (simp add: cb1)
  finally show ?case .
qed

lemma add_combobox_items_accepted:
  assumes "list_all (\<lambda>item. qvariant (snd item) = Inr (snd item)) xs"
  shows "\<exists>cb'. add_combobox_items cb xs = Inr cb'"
  using assms
proof (induction xs arbitrary: cb)
  case Nil
  then show ?case by simp
next
  case (Cons x xs)
  from Cons.prems have "qvariant (snd x) = Inr (snd x)" by simp
  from addItem_accepted [OF this] obtain r where "addItem cb (fst x) (snd x) = Inr r" by blast
  moreover have "\<exists>cb'. add_combobox_items (fst r) xs = Inr cb'"
    using Cons.IH Cons.prems by simp
  ultimately show ?case by auto
qed

lemma find_index_from_eq:
  "find_index_from k t xs =
     (if t \<in> fst ` set xs then k + int (length (takeWhile (\<lambda>item. fst item \<noteq> t) xs)) else - 1)"
  by (induction xs arbitrary: k) auto

lemma first_with_text:
  assumes "t \<in> fst ` set xs"
  shows "length (takeWhile (\<lambda>item. fst item \<noteq> t) xs) < length xs"
    and "fst (xs ! length (takeWhile (\<lambda>item. fst item \<noteq> t) xs)) = t"
proof -
  show 1: "length (takeWhile (\<lambda>item. fst item \<noteq> t) xs) < length xs"
    using assms by (induction xs) auto
  show "fst (xs ! length (takeWhile (\<lambda>item. fst item \<noteq> t) xs)) = t"
    using nth_length_takeWhile [OF 1] by simp
qed

lemma text_for_value_Some:
  "text_for_value xs v = Some t \<Longrightarrow> (t, v) \<in> set xs"
  by (induction xs) (auto split: if_splits)

lemma text_for_value_total:
  "v \<in> snd ` set xs \<Longrightarrow> \<exists>t. text_for_value xs v = Some t"
  by (induction xs) force+

lemma item_of_text:
  assumes "distinct (map fst xs)" and "(t, v) \<in> set xs"
  shows "xs ! length (takeWhile (\<lambda>item. fst item \<noteq> t) xs) = (t, v)"
proof -
  let ?n = "length (takeWhile (\<lambda>item. fst item \<noteq> t) xs)"
  have t: "t \<in> fst ` set xs" using assms(2) by force
  have "xs ! ?n \<in> set xs" using first_with_text(1) [OF t] by simp
  moreover have "fst (xs ! ?n) = t" by (rule first_with_text(2) [OF t])
  ultimately have "(t, snd (xs ! ?n)) \<in> set xs" by (metis prod.collapse)
  then have "snd (xs ! ?n) = v" using assms eq_key_imp_eq_value by metis
  then show ?thesis using \<open>fst (xs ! ?n) = t\<close> by (metis prod.collapse)
qed


lemma add_combobox_for_Inr:
  assumes "add_combobox_for settings self row name d = Inr l"
  shows "\<exists>stored t cb. is_ChoicesOption d \<and> settings name = Some stored
           \<and> text_for_value (choices d) stored = Some t
           \<and> items cb = choices d
           \<and> currentIndex cb = int (length (takeWhile (\<lambda>item. fst item \<noteq> t) (choices d)))
           \<and> currentIndexChanged cb = [combobox_on_changed_closure name]
           \<and> l = self @ [(ComboBox cb, row, 1, AlignRight)]"
proof -
  from assms obtain cb0 stored t where c: "is_ChoicesOption d"
    and a: "add_combobox_items QComboBox_new (choices d) = Inr cb0"
    and s: "settings name = Some stored"
    and t: "text_for_value (choices d) stored = Some t"
    and l: "l = addWidget self (ComboBox ((fst (setCurrentText cb0 t))\<lparr>currentIndexChanged :=
                 currentIndexChanged (fst (setCurrentText cb0 t)) @ [combobox_on_changed_closure name]\<rparr>))
               row 1 AlignRight"
    by (auto simp: add_combobox_for_def Let_def split: if_splits option.splits sum.splits)
  have cb0: "items cb0 = choices d" "currentIndexChanged cb0 = []"
    using add_combobox_items_Inr [OF a] by (simp_all add: QComboBox_new_def)
  have "t \<in> fst ` set (choices d)" using text_for_value_Some [OF t] by force
  note n = first_with_text [OF this]
  let ?n = "length (takeWhile (\<lambda>item. fst item \<noteq> t) (choices d))"
  have f: "findText cb0 t = int ?n"
    using \<open>t \<in> fst ` set (choices d)\<close> by (simp add: findText_def cb0 find_index_from_eq)
  have sel: "items (fst (setCurrentText cb0 t)) = choices d"
    "currentIndex (fst (setCurrentText cb0 t)) = int ?n"
    "currentIndexChanged (fst (setCurrentText cb0 t)) = []"
    using n(1) by (simp_all add: setCurrentText_def f setCurrentIndex_def Let_def cb0)
  show ?thesis
    using c s t l sel by (simp add: addWidget_def)
qed


lemma cpp_int_Inr: "cpp_int x = Inr i \<Longrightarrow> x = PyInt i \<and> - (2 ^ 31) \<le> i \<and> i < 2 ^ 31"
  by (cases x) (auto split: if_splits)

lemma add_spinner_for_Inr:
  assumes "add_spinner_for settings self row name d = Inr l"
  shows "\<exists>v sb. is_BoundedIntOption d \<and> settings name = Some (PyInt v)
           \<and> minimum sb = min (min_int d) (max_int d) \<and> maximum sb = max_int d
           \<and> spin_value sb = max (minimum sb) (min (maximum sb) v)
           \<and> valueChanged sb = [spinner_on_changed_closure name]
           \<and> l = self @ [(SpinBox sb, row, 1, AlignRight)]"
proof -
  from assms obtain stored v where b: "is_BoundedIntOption d"
    and lo: "cpp_int (PyInt (min_int d)) = Inr (min_int d)"
    and hi: "cpp_int (PyInt (max_int d)) = Inr (max_int d)"
    and s: "settings name = Some stored" and v: "cpp_int stored = Inr v"
    by (auto simp: add_spinner_for_def split: if_splits option.splits sum.splits)
  let ?sb = "fst (setValue (fst (setMaximum (fst (setMinimum QSpinBox_new (min_int d))) (max_int d))) v)"
  have l: "l = self @ [(SpinBox (?sb\<lparr>valueChanged := valueChanged ?sb @ [spinner_on_changed_closure name]\<rparr>), row, 1, AlignRight)]"
    using assms b lo hi s v by (simp add: add_spinner_for_def addWidget_def Let_def)
  have sb: "minimum ?sb = min (min_int d) (max_int d)" "maximum ?sb = max_int d"
    "spin_value ?sb = max (minimum ?sb) (min (maximum ?sb) v)" "valueChanged ?sb = []"
    by (auto simp: setValue_def setMaximum_def setMinimum_def setRange_def bound_def
          QSpinBox_new_def Let_def)
  have "stored = PyInt v" using cpp_int_Inr [OF v] by simp
  then show ?thesis using b s l sb by auto
qed







lemma AutoSettingsLayout_row_succeeds:
  assumes "well_stored settings name d"
  shows "\<exists>l. AutoSettingsLayout_row wrap settings self row name d = Inr l"
proof (cases d)
  case (BooleanOption p s t x iv)
  with assms obtain b where "settings name = Some (PyBool b)"
    by (auto split: option.splits py_value.splits)
  then show ?thesis
    by (simp add: BooleanOption AutoSettingsLayout_row_def add_checkbox_for_def py_not_def Let_def)
next
  case (ChoicesOption p s t x c)
  with assms obtain v where v: "settings name = Some v" "v \<in> snd ` set c"
    and acc: "list_all (\<lambda>item. qvariant (snd item) = Inr (snd item)) c"
    by (auto split: option.splits)
  from text_for_value_total [OF v(2)] obtain tx where "text_for_value c v = Some tx" by blast
  moreover from add_combobox_items_accepted [OF acc] obtain cb' where
    "add_combobox_items QComboBox_new c = Inr cb'" by blast
  ultimately show ?thesis using v
    by (simp add: ChoicesOption AutoSettingsLayout_row_def add_combobox_for_def Let_def)
next
  case (BoundedFloatOption p s t x lo hi k)
  with assms obtain r where "settings name = Some (PyFloat r)"
    by (auto split: option.splits py_value.splits)
  then show ?thesis
    by (simp add: BoundedFloatOption AutoSettingsLayout_row_def add_float_spin_slider_for_def Let_def)
next
  case (BoundedIntOption p s t x lo hi)
  with assms obtain v where "settings name = Some (PyInt v)"
    "- (2 ^ 31) \<le> lo" "lo < 2 ^ 31" "- (2 ^ 31) \<le> hi" "hi < 2 ^ 31" "- (2 ^ 31) \<le> v" "v < 2 ^ 31"
    by (auto split: option.splits py_value.splits)
  then show ?thesis
    by (simp add: BoundedIntOption AutoSettingsLayout_row_def add_spinner_for_def Let_def)
next
  case (OptionDescription p s t x)
  with assms show ?thesis by simp
qed

lemma AutoSettingsLayout_rows_succeeds:
  assumes "\<forall>pr \<in> set pairs. well_stored settings (fst pr) (snd pr)"
  shows "\<exists>l. AutoSettingsLayout_rows wrap settings self row pairs = Inr l"
  using assms
proof (induction pairs arbitrary: self row)
  case Nil
  then show ?case by simp
next
  case (Cons pr rest)
  obtain name d where pr: "pr = (name, d)" by (cases pr)
  have "well_stored settings name d" using Cons.prems by (simp add: pr)
  from AutoSettingsLayout_row_succeeds [OF this]
  obtain self' where "AutoSettingsLayout_row wrap settings self row name d = Inr self'" by blast
  moreover have "\<exists>l. AutoSettingsLayout_rows wrap settings self' (Suc row) rest = Inr l"
    using Cons.IH Cons.prems by simp
  ultimately show ?case by (auto simp: pr)
qed

lemma AutoSettingsLayout_rows_append:
  assumes "AutoSettingsLayout_rows wrap settings self row pre = Inr self'"
  shows "AutoSettingsLayout_rows wrap settings self row (pre @ post)
           = AutoSettingsLayout_rows wrap settings self' (row + length pre) post"
  using assms
proof (induction pre arbitrary: self row)
  case Nil
  then show ?case by simp
next
  case (Cons pr pre)
  obtain name d where pr: "pr = (name, d)" by (cases pr)
  from Cons.prems obtain s1 where
    r: "AutoSettingsLayout_row wrap settings self row name d = Inr s1"
    and rs: "AutoSettingsLayout_rows wrap settings s1 (Suc row) pre = Inr self'"
    by (auto simp: pr split: sum.splits)
  show ?case using Cons.IH [OF rs] r by (simp add: pr)
qed

lemma AutoSettingsLayout_row_unhandled:
  "AutoSettingsLayout_row wrap settings self row name (OptionDescription p s t x) = Inl TypeError"
  by (simp add: AutoSettingsLayout_row_def)

lemma AutoSettingsLayout_row_unset:
  assumes "toolkit_accepts d" and "settings name = None"
  shows "AutoSettingsLayout_row wrap settings self row name d = Inl KeyError"
proof (cases d)
  case (BooleanOption p s t x iv)
  then show ?thesis
    using assms(2) by (simp add: AutoSettingsLayout_row_def add_checkbox_for_def)
next
  case (ChoicesOption p s t x c)
  with assms(1) have "list_all (\<lambda>item. qvariant (snd item) = Inr (snd item)) c" by simp
  from add_combobox_items_accepted [OF this] obtain cb' where
    "add_combobox_items QComboBox_new c = Inr cb'" by blast
  then show ?thesis
    using assms(2) by (simp add: ChoicesOption AutoSettingsLayout_row_def add_combobox_for_def)
next
  case (BoundedFloatOption p s t x lo hi k)
  then show ?thesis
    using assms(2) by (simp add: AutoSettingsLayout_row_def add_float_spin_slider_for_def)
next
  case (BoundedIntOption p s t x lo hi)
  then show ?thesis
    using assms by (simp add: AutoSettingsLayout_row_def add_spinner_for_def)
next
  case (OptionDescription p s t x)
  with assms(1) show ?thesis by simp
qed

subsection \<open>Declaring a boolean option\<close>

lemma field_accepts:
  assumes "set (map fst kwargs) \<subseteq> set [''init'', ''repr'', ''hash'', ''compare'']"
  shows "field m d kwargs = Inr \<lparr>default = d, metadata = m, options = kwargs\<rparr>"
proof -
  have "\<not> list_ex (\<lambda>k. k \<notin> set field_keywords) (map fst kwargs)"
    using assms by (auto simp: list_ex_iff field_keywords_def)
  moreover have "''default_factory'' \<notin> set (map fst kwargs)"
    using assms by auto
  ultimately show ?thesis by (simp add: field_def)
qed

text \<open>
  C8. For all arguments text, page, section, default, invert and detail (and further
  keywords that \<open>dataclasses.field\<close> takes beside a default), \<open>boolean_option\<close> returns
  a field specification that carries \<open>default\<close> as the default of the field and has
  \<open>BooleanOption(page, section, text, detail, invert)\<close> in its metadata under
  \<open>SETTING_DESCRIPTION_KEY\<close>. In a dataclass whose field \<open>name\<close> is declared by it, the
  description is found through the field of that name, and a fresh instance holds the
  default under \<open>name\<close> in its \<open>__dict__\<close>, unless the call passed a false \<open>init\<close>: then
  the \<open>__dict__\<close> of a fresh instance has no entry for \<open>name\<close>.
\<close>

theorem boolean_option_carries_default_and_description:
  assumes "set (map fst kwargs) \<subseteq> set [''init'', ''repr'', ''hash'', ''compare'']"
  shows "\<exists>f. boolean_option t p s dflt iv det kwargs = Inr f
           \<and> default f = PyBool dflt
           \<and> metadata f SETTING_DESCRIPTION_KEY = Some (BooleanOption p s t det iv)
           \<and> (\<forall>body name. dataclass_field body name = Some f \<longrightarrow>
                 Option.bind (dataclass_field body name) (\<lambda>g. metadata g SETTING_DESCRIPTION_KEY)
                   = Some (BooleanOption p s t det iv)
               \<and> dataclass_init body name =
                   (case map_of kwargs ''init'' of
                      None \<Rightarrow> Some (PyBool dflt)
                    | Some v \<Rightarrow> if truthy v then Some (PyBool dflt) else None))"
  using field_accepts [OF assms]
  by (auto simp: boolean_option_def dataclass_init_def field_init_def split: option.splits)

theorem boolean_option_witness:
  "set (map fst ([] :: (string \<times> py_value) list)) \<subseteq> set [''init'', ''repr'', ''hash'', ''compare'']
   \<and> (\<exists>f. boolean_option ''Show X'' ''General'' ''Display'' False True None [] = Inr f
         \<and> default f = PyBool False
         \<and> metadata f SETTING_DESCRIPTION_KEY
             = Some (BooleanOption ''General'' ''Display'' ''Show X'' None True)
         \<and> dataclass_init [(''hide_x'', f)] ''hide_x'' = Some (PyBool False))
   \<and> (\<exists>f. boolean_option ''Show X'' ''General'' ''Display'' False True None [(''init'', PyBool False)]
           = Inr f
         \<and> default f = PyBool False
         \<and> dataclass_init [(''hide_x'', f)] ''hide_x'' = None)"
proof -
  have k0: "set (map fst ([] :: (string \<times> py_value) list))
              \<subseteq> set [''init'', ''repr'', ''hash'', ''compare'']" by simp
  have k1: "set (map fst [(''init'', PyBool False)])
              \<subseteq> set [''init'', ''repr'', ''hash'', ''compare'']" by simp
  from boolean_option_carries_default_and_description
    [OF k0, of "''Show X''" "''General''" "''Display''" False True None]
  obtain f where f: "boolean_option ''Show X'' ''General'' ''Display'' False True None [] = Inr f"
    "default f = PyBool False"
    "metadata f SETTING_DESCRIPTION_KEY = Some (BooleanOption ''General'' ''Display'' ''Show X'' None True)"
    and fb: "\<forall>body name. dataclass_field body name = Some f \<longrightarrow>
                 Option.bind (dataclass_field body name) (\<lambda>g. metadata g SETTING_DESCRIPTION_KEY)
                   = Some (BooleanOption ''General'' ''Display'' ''Show X'' None True)
               \<and> dataclass_init body name =
                   (case map_of ([] :: (string \<times> py_value) list) ''init'' of
                      None \<Rightarrow> Some (PyBool False)
                    | Some v \<Rightarrow> if truthy v then Some (PyBool False) else None)"
    by blast
  have "dataclass_field [(''hide_x'', f)] ''hide_x'' = Some f" by (simp add: dataclass_field_def)
  with fb have f3: "dataclass_init [(''hide_x'', f)] ''hide_x'' = Some (PyBool False)" by simp
  from boolean_option_carries_default_and_description
    [OF k1, of "''Show X''" "''General''" "''Display''" False True None]
  obtain g where g: "boolean_option ''Show X'' ''General'' ''Display'' False True None
                       [(''init'', PyBool False)] = Inr g"
    "default g = PyBool False"
    and gb: "\<forall>body name. dataclass_field body name = Some g \<longrightarrow>
                 Option.bind (dataclass_field body name) (\<lambda>h. metadata h SETTING_DESCRIPTION_KEY)
                   = Some (BooleanOption ''General'' ''Display'' ''Show X'' None True)
               \<and> dataclass_init body name =
                   (case map_of [(''init'', PyBool False)] ''init'' of
                      None \<Rightarrow> Some (PyBool False)
                    | Some v \<Rightarrow> if truthy v then Some (PyBool False) else None)"
    by blast
  have "dataclass_field [(''hide_x'', g)] ''hide_x'' = Some g" by (simp add: dataclass_field_def)
  with gb have g3: "dataclass_init [(''hide_x'', g)] ''hide_x'' = None" by simp
  show ?thesis using k0 f f3 g g3 by blast
qed

subsection \<open>Restoring a ground unit type\<close>

text \<open>
  C10. When \<open>__setstate__\<close> restores a pickled \<open>GroundUnitType\<close> and \<open>named\<close> finds a
  registered unit type under the \<open>variant_id\<close> of the saved state, the restored
  \<open>__dict__\<close> holds, for every attribute of the registered unit type, the registered
  value and not the saved one; a saved key that the registered unit type does not have
  keeps its saved value.
\<close>

theorem setstate_takes_registered_data:
  assumes "state ''variant_id'' = Some variant_id"
      and "GroundUnitType_named load_all cls variant_id = (Inr updated, cls')"
  shows "by_name cls' variant_id = Some updated
       \<and> (\<exists>d. GroundUnitType_setstate load_all cls self state = (Inr d, cls')
             \<and> (\<forall>k \<in> dom updated. d k = updated k)
             \<and> (\<forall>k. k \<notin> dom updated \<longrightarrow> k \<in> dom state \<longrightarrow> d k = state k))"
proof -
  have reg: "by_name cls' variant_id = Some updated"
    using assms(2)
    by (auto simp: GroundUnitType_named_def split: if_splits prod.splits sum.splits option.splits)
  have run: "GroundUnitType_setstate load_all cls self state
               = (Inr (self ++ (state ++ updated)), cls')"
    using assms by (simp add: GroundUnitType_setstate_def)
  have "\<forall>k \<in> dom updated. (self ++ (state ++ updated)) k = updated k"
    by (auto simp: map_add_def split: option.splits)
  moreover have "\<forall>k. k \<notin> dom updated \<longrightarrow> k \<in> dom state \<longrightarrow> (self ++ (state ++ updated)) k = state k"
    by (auto simp: map_add_def dom_def split: option.splits)
  ultimately show ?thesis using reg run by blast
qed

theorem setstate_witness:
  "\<exists>cls d.
     GroundUnitType_register \<lparr>by_name = Map.empty, by_unit_type = (\<lambda>t. []), loaded = True\<rparr>
       [''variant_id'' \<mapsto> ''T-72B'', ''dcs_unit_type'' \<mapsto> ''T_72B'', ''price'' \<mapsto> ''20'']
       = (Inr (), cls)
   \<and> GroundUnitType_setstate (\<lambda>c. (Inr (), c)) cls Map.empty
       [''variant_id'' \<mapsto> ''T-72B'', ''price'' \<mapsto> ''12'', ''kills'' \<mapsto> ''3'']
       = (Inr d, cls)
   \<and> d ''price'' = Some ''20'' \<and> d ''dcs_unit_type'' = Some ''T_72B'' \<and> d ''kills'' = Some ''3''"
proof -
  let ?u = "[''variant_id'' \<mapsto> ''T-72B'', ''dcs_unit_type'' \<mapsto> ''T_72B'', ''price'' \<mapsto> ''20'']"
  let ?st = "[''variant_id'' \<mapsto> ''T-72B'', ''price'' \<mapsto> ''12'', ''kills'' \<mapsto> ''3'']"
  let ?cls0 = "\<lparr>by_name = Map.empty, by_unit_type = (\<lambda>t. []), loaded = True\<rparr>
                 :: string GroundUnitType_class"
  obtain cls where r: "GroundUnitType_register ?cls0 ?u = (Inr (), cls)"
    and l: "loaded cls" and b: "by_name cls ''T-72B'' = Some ?u"
    by (simp add: GroundUnitType_register_def)
  have n: "GroundUnitType_named (\<lambda>c. (Inr (), c)) cls ''T-72B'' = (Inr ?u, cls)"
    using l b by (simp add: GroundUnitType_named_def)
  have s: "?st ''variant_id'' = Some ''T-72B''" by simp
  from setstate_takes_registered_data
    [where state = ?st and self = Map.empty and load_all = "\<lambda>c. (Inr (), c)", OF s n]
  obtain d where d: "GroundUnitType_setstate (\<lambda>c. (Inr (), c)) cls Map.empty ?st = (Inr d, cls)"
    and upd: "\<forall>k \<in> dom ?u. d k = ?u k"
    and keep: "\<forall>k. k \<notin> dom ?u \<longrightarrow> k \<in> dom ?st \<longrightarrow> d k = ?st k"
    by blast
  have "d ''price'' = Some ''20''" using upd by simp
  moreover have "d ''dcs_unit_type'' = Some ''T_72B''" using upd by simp
  moreover have "d ''kills'' = Some ''3''" using keep by simp
  ultimately show ?thesis using r d by blast
qed

subsection \<open>Loading persisted settings\<close>



subsection \<open>The dispatch of the binder\<close>



subsection \<open>Descriptions of an unhandled kind\<close>

text \<open>
  The claim C5 as it is written says that binding succeeds without raising for every
  description of the four handled kinds. A Boolean option whose field the Settings
  object does not hold refutes it: the binder looks the field up in the \<open>__dict__\<close> of
  the Settings object and raises KeyError.
\<close>

theorem unset_field_counterexample:
  "AutoSettingsLayout_init (\<lambda>s w. [s])
     (\<lambda>p s. Inr [(''hide_x'', BooleanOption ''General'' ''Display'' ''Show X'' None True)])
     ''General'' ''Display'' Map.empty = Inl KeyError"
  by (simp add: AutoSettingsLayout_init_def AutoSettingsLayout_row_def add_checkbox_for_def)

text \<open>
  C5, amended. When the loop of the binder reaches a description that is an instance of
  none of BooleanOption, ChoicesOption, BoundedFloatOption and BoundedIntOption (the
  pairs before it were bound without raising), binding fails with TypeError. When every
  pair is of one of the four kinds, the toolkit can take its data and the Settings
  object holds under the field name a value of that kind (\<open>well_stored\<close>), binding
  succeeds without raising. When the loop reaches a pair of one of the four kinds
  whose data the toolkit can take (\<open>toolkit_accepts\<close>) and whose field the Settings
  object does not hold, binding fails with KeyError.
\<close>

theorem binding_raises_TypeError_or_succeeds:
  assumes "Settings_fields pg sec = Inr pairs"
  shows "(\<forall>pre name p s t x post self'.
            pairs = pre @ (name, OptionDescription p s t x) # post
            \<longrightarrow> AutoSettingsLayout_rows wrap settings [] 0 pre = Inr self'
            \<longrightarrow> AutoSettingsLayout_init wrap Settings_fields pg sec settings = Inl TypeError)
       \<and> ((\<forall>pr \<in> set pairs. well_stored settings (fst pr) (snd pr))
            \<longrightarrow> (\<exists>layout. AutoSettingsLayout_init wrap Settings_fields pg sec settings = Inr layout))
       \<and> (\<forall>pre name d post self'.
            pairs = pre @ (name, d) # post
            \<longrightarrow> AutoSettingsLayout_rows wrap settings [] 0 pre = Inr self'
            \<longrightarrow> toolkit_accepts d \<longrightarrow> settings name = None
            \<longrightarrow> AutoSettingsLayout_init wrap Settings_fields pg sec settings = Inl KeyError)"
proof -
  have init: "AutoSettingsLayout_init wrap Settings_fields pg sec settings
                = AutoSettingsLayout_rows wrap settings [] 0 pairs"
    using assms by (simp add: AutoSettingsLayout_init_def)
  have a: "AutoSettingsLayout_rows wrap settings [] 0 pairs = Inl TypeError"
    if "pairs = pre @ (name, OptionDescription p s t x) # post"
      and "AutoSettingsLayout_rows wrap settings [] 0 pre = Inr self'"
    for pre name p s t x post self'
    using AutoSettingsLayout_rows_append [OF that(2), of "(name, OptionDescription p s t x) # post"]
    by (simp add: that(1) AutoSettingsLayout_row_unhandled)
  have b: "\<exists>layout. AutoSettingsLayout_rows wrap settings [] 0 pairs = Inr layout"
    if "\<forall>pr \<in> set pairs. well_stored settings (fst pr) (snd pr)"
    using AutoSettingsLayout_rows_succeeds [OF that] by blast
  have c: "AutoSettingsLayout_rows wrap settings [] 0 pairs = Inl KeyError"
    if "pairs = pre @ (name, d) # post"
      and "AutoSettingsLayout_rows wrap settings [] 0 pre = Inr self'"
      and "toolkit_accepts d" and "settings name = None"
    for pre name d post self'
    using AutoSettingsLayout_rows_append [OF that(2), of "(name, d) # post"]
    by (simp add: that(1)
          AutoSettingsLayout_row_unset [where settings = settings and name = name, OF that(3,4)])
  have A: "\<forall>pre name p s t x post self'.
            pairs = pre @ (name, OptionDescription p s t x) # post
            \<longrightarrow> AutoSettingsLayout_rows wrap settings [] 0 pre = Inr self'
            \<longrightarrow> AutoSettingsLayout_init wrap Settings_fields pg sec settings = Inl TypeError"
    using a by (simp only: init) blast
  have B: "(\<forall>pr \<in> set pairs. well_stored settings (fst pr) (snd pr))
            \<longrightarrow> (\<exists>layout. AutoSettingsLayout_init wrap Settings_fields pg sec settings = Inr layout)"
    using b by (simp only: init) blast
  have C: "\<forall>pre name d post self'.
            pairs = pre @ (name, d) # post
            \<longrightarrow> AutoSettingsLayout_rows wrap settings [] 0 pre = Inr self'
            \<longrightarrow> toolkit_accepts d \<longrightarrow> settings name = None
            \<longrightarrow> AutoSettingsLayout_init wrap Settings_fields pg sec settings = Inl KeyError"
    using c by (simp only: init) blast
  show ?thesis by (intro conjI A B C)
qed

theorem binding_raises_TypeError_or_succeeds_witness:
  "AutoSettingsLayout_init (\<lambda>s w. [s])
     (\<lambda>p s. Inr [(''hide_x'', BooleanOption ''General'' ''Display'' ''Show X'' None True),
                  (''legacy'', OptionDescription ''General'' ''Display'' ''Legacy'' None)])
     ''General'' ''Display'' [''hide_x'' \<mapsto> PyBool False] = Inl TypeError
   \<and> (\<exists>layout. AutoSettingsLayout_init (\<lambda>s w. [s])
     (\<lambda>p s. Inr [(''hide_x'', BooleanOption ''General'' ''Display'' ''Show X'' None True)])
     ''General'' ''Display'' [''hide_x'' \<mapsto> PyBool False] = Inr layout)
   \<and> AutoSettingsLayout_init (\<lambda>s w. [s])
     (\<lambda>p s. Inr [(''hide_x'', BooleanOption ''General'' ''Display'' ''Show X'' None True),
                  (''size'', ChoicesOption ''General'' ''Display'' ''Size'' None
                     [(''Small'', PyInt 1), (''Big'', PyInt 2)])])
     ''General'' ''Display'' [''hide_x'' \<mapsto> PyBool False] = Inl KeyError"
proof -
  let ?b = "(''hide_x'', BooleanOption ''General'' ''Display'' ''Show X'' None True)"
  let ?o = "(''legacy'', OptionDescription ''General'' ''Display'' ''Legacy'' None)"
  let ?cd = "ChoicesOption ''General'' ''Display'' ''Size'' None [(''Small'', PyInt 1), (''Big'', PyInt 2)]"
  let ?s = "[''hide_x'' \<mapsto> PyBool False]"
  let ?F1 = "\<lambda>p s. Inr [?b, ?o] :: error + (string \<times> description) list"
  let ?F2 = "\<lambda>p s. Inr [?b] :: error + (string \<times> description) list"
  let ?F3 = "\<lambda>p s. Inr [?b, (''size'', ?cd)] :: error + (string \<times> description) list"
  have w: "\<forall>pr \<in> set [?b]. well_stored ?s (fst pr) (snd pr)" by simp
  from AutoSettingsLayout_rows_succeeds [OF w]
  obtain self' where pre: "AutoSettingsLayout_rows (\<lambda>s w. [s]) ?s [] 0 [?b] = Inr self'" by blast
  have F1: "?F1 ''General'' ''Display'' = Inr [?b, ?o]" by simp
  have F2: "?F2 ''General'' ''Display'' = Inr [?b]" by simp
  have F3: "?F3 ''General'' ''Display'' = Inr [?b, (''size'', ?cd)]" by simp
  note t1 = binding_raises_TypeError_or_succeeds
    [where Settings_fields = ?F1 and wrap = "\<lambda>s w. [s]" and settings = ?s
      and pg = "''General''" and sec = "''Display''", OF F1]
  note t2 = binding_raises_TypeError_or_succeeds
    [where Settings_fields = ?F2 and wrap = "\<lambda>s w. [s]" and settings = ?s
      and pg = "''General''" and sec = "''Display''", OF F2]
  note t3 = binding_raises_TypeError_or_succeeds
    [where Settings_fields = ?F3 and wrap = "\<lambda>s w. [s]" and settings = ?s
      and pg = "''General''" and sec = "''Display''", OF F3]
  have split: "[?b, ?o] = [?b] @ (''legacy'', OptionDescription ''General'' ''Display'' ''Legacy'' None) # []"
    by simp
  have 1: "AutoSettingsLayout_init (\<lambda>s w. [s]) ?F1 ''General'' ''Display'' ?s = Inl TypeError"
    using conjunct1 [OF t1] split pre by blast
  have 2: "\<exists>layout. AutoSettingsLayout_init (\<lambda>s w. [s]) ?F2 ''General'' ''Display'' ?s = Inr layout"
    using conjunct1 [OF conjunct2 [OF t2]] w by blast
  have split3: "[?b, (''size'', ?cd)] = [?b] @ (''size'', ?cd) # []" by simp
  have acc: "toolkit_accepts ?cd" by simp
  have unset: "?s ''size'' = None" by simp
  have 3: "AutoSettingsLayout_init (\<lambda>s w. [s]) ?F3 ''General'' ''Display'' ?s = Inl KeyError"
    using conjunct2 [OF conjunct2 [OF t3]] split3 pre acc unset by blast
  show ?thesis using 1 2 3 by blast
qed

text \<open>
  Two bindings that raise before the field is looked up: a choice whose value does not
  fit the item data of the combo box, and a bound that does not fit the int of the
  spinner. In the first the Settings object holds one of the choices' values, in the
  second it lacks the field.
\<close>

lemma item_data_overflow:
  "add_combobox_for [''size'' \<mapsto> PyInt 1] [] 0 ''size''
     (ChoicesOption ''General'' ''Display'' ''Size'' None
        [(''Small'', PyInt 1), (''Big'', PyInt (2 ^ 63))]) = Inl OverflowError"
  by (simp add: add_combobox_for_def addItem_def setCurrentIndex_def QComboBox_new_def Let_def)

lemma spinner_bound_overflow:
  "add_spinner_for Map.empty [] 0 ''limit''
     (BoundedIntOption ''General'' ''Display'' ''Limit'' None (2 ^ 31) (2 ^ 31)) = Inl OverflowError"
  by (simp add: add_spinner_for_def)

subsection \<open>The write-back callbacks\<close>




subsection \<open>The check box of a Boolean option\<close>

lemma click_connected:
  assumes "toggled cb0 = [on_toggle_closure name d]"
  shows "click cb0 s = (cb0\<lparr>checked := \<not> checked cb0\<rparr>,
                       s(name \<mapsto> PyBool (if invert d then \<not> (\<not> checked cb0) else \<not> checked cb0)))"
  using assms
  by (simp add: click_def setChecked_def emit_def call_def on_toggle_def Let_def)

text \<open>
  C2. For a BooleanOption field that holds the bool \<open>stored\<close>: the check box is
  initially checked iff \<open>(invert ? not stored : stored)\<close>; a click stores the new state
  of the check box through the same inversion; one click stores \<open>not stored\<close>, and a
  second click restores the check box and the Settings object as they were. The instance
  of the claim (a field declared with default False and invert True: the fresh Settings
  object stores False, the check box is initially checked, unchecking it stores True) is
  the theorem that follows this one.
\<close>

theorem checkbox_shows_and_stores_through_invert:
  assumes "add_checkbox_for settings self row name d = Inr layout"
      and "settings name = Some (PyBool stored)"
  shows "\<exists>cb. layout = self @ [(CheckBox cb, row, 1, AlignRight)]
           \<and> checked cb = (if invert d then \<not> stored else stored)
           \<and> (\<forall>cb0 s. toggled cb0 = toggled cb \<longrightarrow>
                 (case click cb0 s of (cb1, s1) \<Rightarrow>
                    checked cb1 = (\<not> checked cb0)
                  \<and> s1 = s(name \<mapsto> PyBool (if invert d then \<not> checked cb1 else checked cb1))))
           \<and> (case click cb settings of (cb1, s1) \<Rightarrow>
                 s1 name = Some (PyBool (\<not> stored))
               \<and> (case click cb1 s1 of (cb2, s2) \<Rightarrow> cb2 = cb \<and> s2 = settings))"
proof -
  from add_checkbox_for_Inr [OF assms(1)] assms(2) obtain b where
    b: "cpp_bool (if invert d then py_not (PyBool stored) else PyBool stored) = Inr b"
    and l: "layout = self @ [(CheckBox \<lparr>checked = b, toggled = [on_toggle_closure name d]\<rparr>, row, 1, AlignRight)]"
    by auto
  let ?cb = "\<lparr>checked = b, toggled = [on_toggle_closure name d]\<rparr>"
  have shown: "b = (if invert d then \<not> stored else stored)"
    using b by (simp add: py_not_def split: if_splits)
  have step: "\<forall>cb0 s. toggled cb0 = toggled ?cb \<longrightarrow>
                 (case click cb0 s of (cb1, s1) \<Rightarrow>
                    checked cb1 = (\<not> checked cb0)
                  \<and> s1 = s(name \<mapsto> PyBool (if invert d then \<not> checked cb1 else checked cb1)))"
    by (simp add: click_connected)
  have once: "click ?cb settings = (?cb\<lparr>checked := \<not> b\<rparr>, settings(name \<mapsto> PyBool (\<not> stored)))"
    by (simp add: click_connected shown)
  have twice: "click (?cb\<lparr>checked := \<not> b\<rparr>) (settings(name \<mapsto> PyBool (\<not> stored))) = (?cb, settings)"
  proof -
    have "settings(name \<mapsto> PyBool stored) = settings" using assms(2) by (rule map_upd_triv)
    then show ?thesis by (simp add: click_connected shown)
  qed
  have "case click ?cb settings of (cb1, s1) \<Rightarrow>
                 s1 name = Some (PyBool (\<not> stored))
               \<and> (case click cb1 s1 of (cb2, s2) \<Rightarrow> cb2 = ?cb \<and> s2 = settings)"
    by (simp only: once twice prod.case) simp
  then show ?thesis using l shown step by (intro exI [of _ ?cb]) simp
qed

theorem checkbox_hide_x_witness:
  "\<exists>f d cb cb' s'.
     boolean_option ''Show X'' ''General'' ''Display'' False True None [] = Inr f
   \<and> metadata f SETTING_DESCRIPTION_KEY = Some d
   \<and> dataclass_init [(''hide_x'', f)] ''hide_x'' = Some (PyBool False)
   \<and> add_checkbox_for (dataclass_init [(''hide_x'', f)]) [] 0 ''hide_x'' d
       = Inr [(CheckBox cb, 0, 1, AlignRight)]
   \<and> checked cb
   \<and> click cb (dataclass_init [(''hide_x'', f)]) = (cb', s')
   \<and> \<not> checked cb' \<and> s' ''hide_x'' = Some (PyBool True)"
proof -
  let ?d = "BooleanOption ''General'' ''Display'' ''Show X'' None True"
  let ?f = "\<lparr>default = PyBool False, metadata = [SETTING_DESCRIPTION_KEY \<mapsto> ?d], options = []\<rparr>"
  let ?s = "dataclass_init [(''hide_x'', ?f)]"
  have f: "boolean_option ''Show X'' ''General'' ''Display'' False True None [] = Inr ?f"
    by (simp add: boolean_option_def field_def field_keywords_def)
  have m: "metadata ?f SETTING_DESCRIPTION_KEY = Some ?d" by simp
  have s: "?s ''hide_x'' = Some (PyBool False)"
    by (simp add: dataclass_init_def dataclass_field_def field_init_def)
  obtain layout where a: "add_checkbox_for ?s [] 0 ''hide_x'' ?d = Inr layout"
    using s by (simp add: add_checkbox_for_def py_not_def Let_def)
  from checkbox_shows_and_stores_through_invert [OF a s]
  obtain cb where l: "layout = [] @ [(CheckBox cb, 0, 1, AlignRight)]"
    and c: "checked cb = (if invert ?d then \<not> False else False)"
    and st: "\<forall>cb0 s. toggled cb0 = toggled cb \<longrightarrow>
                 (case click cb0 s of (cb1, s1) \<Rightarrow>
                    checked cb1 = (\<not> checked cb0)
                  \<and> s1 = s(''hide_x'' \<mapsto> PyBool (if invert ?d then \<not> checked cb1 else checked cb1)))"
    by blast
  obtain cb' s' where k: "click cb ?s = (cb', s')" by (cases "click cb ?s")
  have "toggled cb = toggled cb" by simp
  from st [rule_format, OF this, of ?s]
  have "checked cb' = (\<not> checked cb)"
    "s' = ?s(''hide_x'' \<mapsto> PyBool (if invert ?d then \<not> checked cb' else checked cb'))"
    by (simp_all only: k prod.case)
  with c have "\<not> checked cb'" "s' ''hide_x'' = Some (PyBool True)" by simp_all
  then show ?thesis using f m s a l c k by (intro exI [of _ ?f] exI [of _ ?d] exI [of _ cb] exI [of _ cb'] exI [of _ s']) simp
qed

subsection \<open>The spinner of a BoundedInt option\<close>

lemma edit_value_connected:
  assumes "valueChanged sb0 = [spinner_on_changed_closure name]"
  shows "edit_value sb0 v s =
           (sb0\<lparr>spin_value := bound sb0 v\<rparr>,
            if bound sb0 v = spin_value sb0 then s else s(name \<mapsto> PyInt (bound sb0 v)))"
  using assms
  by (simp add: edit_value_def setValue_def emit_def call_def spinner_on_changed_def Let_def)

lemma bound_in_range:
  assumes "minimum sb0 = min lo hi" and "maximum sb0 = hi"
      and "minimum sb0 \<le> spin_value sb0" and "spin_value sb0 \<le> maximum sb0"
      and "bound sb0 v \<noteq> spin_value sb0"
  shows "lo \<le> bound sb0 v \<and> bound sb0 v \<le> hi"
  using assms by (auto simp: bound_def)

lemma edit_values_in_range:
  assumes "valueChanged sb0 = [spinner_on_changed_closure name]"
      and "minimum sb0 = min lo hi" and "maximum sb0 = hi"
      and "minimum sb0 \<le> spin_value sb0" and "spin_value sb0 \<le> maximum sb0"
  shows "case edit_values sb0 vs s of (sb', s') \<Rightarrow>
           minimum sb' = minimum sb0 \<and> maximum sb' = maximum sb0
         \<and> (s' = s \<or> (\<exists>x. lo \<le> x \<and> x \<le> hi \<and> s' name = Some (PyInt x)))
         \<and> (\<forall>k. k \<noteq> name \<longrightarrow> s' k = s k)"
  using assms
proof (induction vs arbitrary: sb0 s)
  case Nil
  then show ?case by simp
next
  case (Cons v vs)
  let ?sb1 = "sb0\<lparr>spin_value := bound sb0 v\<rparr>"
  let ?s1 = "if bound sb0 v = spin_value sb0 then s else s(name \<mapsto> PyInt (bound sb0 v))"
  have step: "edit_value sb0 v s = (?sb1, ?s1)"
    by (rule edit_value_connected [OF Cons.prems(1)])
  have inv: "valueChanged ?sb1 = [spinner_on_changed_closure name]"
    "minimum ?sb1 = min lo hi" "maximum ?sb1 = hi"
    "minimum ?sb1 \<le> spin_value ?sb1" "spin_value ?sb1 \<le> maximum ?sb1"
    using Cons.prems by (auto simp: bound_def)
  obtain sb' s' where r: "edit_values ?sb1 vs ?s1 = (sb', s')" by (cases "edit_values ?sb1 vs ?s1")
  from Cons.IH [OF inv, of ?s1] r have ih:
    "minimum sb' = minimum ?sb1" "maximum sb' = maximum ?sb1"
    "s' = ?s1 \<or> (\<exists>x. lo \<le> x \<and> x \<le> hi \<and> s' name = Some (PyInt x))"
    "\<forall>k. k \<noteq> name \<longrightarrow> s' k = ?s1 k"
    by auto
  have w: "s' = s \<or> (\<exists>x. lo \<le> x \<and> x \<le> hi \<and> s' name = Some (PyInt x))"
  proof (cases "bound sb0 v = spin_value sb0")
    case True
    then show ?thesis using ih(3) by simp
  next
    case False
    from bound_in_range [OF Cons.prems(2-5) False]
    have "lo \<le> bound sb0 v \<and> bound sb0 v \<le> hi" .
    then show ?thesis using ih(3) False by auto
  qed
  have f: "\<forall>k. k \<noteq> name \<longrightarrow> s' k = s k" using ih(4) by simp
  have "edit_values sb0 (v # vs) s = (sb', s')" using step r by simp
  then show ?case using ih(1,2) w f by simp
qed

text \<open>
  C4. For a BoundedIntOption field that the binder has bound: the maximum of the
  spinner is \<open>max\<close> and, when \<open>min \<le> max\<close>, its minimum is \<open>min\<close>, and its value lies
  in its range; every value that \<open>valueChanged\<close> hands to the write-back callback, in
  any state of the spinner with that range, lies within \<open>[min, max]\<close>; and after any
  sequence of edits by the user the range is the same and the field of the Settings
  object is either untouched (no write happened) or holds an int within \<open>[min, max]\<close>,
  with every other field as it was.
\<close>

theorem spinner_writes_stay_in_range:
  assumes "add_spinner_for settings self row name d = Inr layout"
  shows "\<exists>sb. layout = self @ [(SpinBox sb, row, 1, AlignRight)]
           \<and> maximum sb = max_int d
           \<and> (min_int d \<le> max_int d \<longrightarrow> minimum sb = min_int d)
           \<and> minimum sb \<le> spin_value sb \<and> spin_value sb \<le> maximum sb
           \<and> (\<forall>sb0 v sb1 x.
                 minimum sb0 = minimum sb \<and> maximum sb0 = maximum sb
                 \<and> minimum sb0 \<le> spin_value sb0 \<and> spin_value sb0 \<le> maximum sb0
                 \<longrightarrow> setValue sb0 v = (sb1, Some x)
                 \<longrightarrow> min_int d \<le> x \<and> x \<le> max_int d)
           \<and> (\<forall>vs s. case edit_values sb vs s of (sb', s') \<Rightarrow>
                 minimum sb' = minimum sb \<and> maximum sb' = maximum sb
               \<and> (s' = s \<or> (\<exists>x. min_int d \<le> x \<and> x \<le> max_int d \<and> s' name = Some (PyInt x)))
               \<and> (\<forall>k. k \<noteq> name \<longrightarrow> s' k = s k))"
proof -
  from add_spinner_for_Inr [OF assms] obtain v sb where
    sb: "minimum sb = min (min_int d) (max_int d)" "maximum sb = max_int d"
      "spin_value sb = max (minimum sb) (min (maximum sb) v)"
      "valueChanged sb = [spinner_on_changed_closure name]"
    and l: "layout = self @ [(SpinBox sb, row, 1, AlignRight)]"
    by blast
  have r: "minimum sb \<le> spin_value sb" "spin_value sb \<le> maximum sb"
    using sb by auto
  have m: "min_int d \<le> max_int d \<longrightarrow> minimum sb = min_int d" using sb by simp
  have d: "\<forall>sb0 v sb1 x.
                 minimum sb0 = minimum sb \<and> maximum sb0 = maximum sb
                 \<and> minimum sb0 \<le> spin_value sb0 \<and> spin_value sb0 \<le> maximum sb0
                 \<longrightarrow> setValue sb0 v = (sb1, Some x)
                 \<longrightarrow> min_int d \<le> x \<and> x \<le> max_int d"
  proof (intro allI impI)
    fix sb0 v sb1 x
    assume a: "minimum sb0 = minimum sb \<and> maximum sb0 = maximum sb
                 \<and> minimum sb0 \<le> spin_value sb0 \<and> spin_value sb0 \<le> maximum sb0"
      and e: "setValue sb0 v = (sb1, Some x)"
    from e have x: "x = bound sb0 v" "bound sb0 v \<noteq> spin_value sb0"
      by (auto simp: setValue_def Let_def split: if_splits)
    have a1: "minimum sb0 = min (min_int d) (max_int d)" using a sb(1) by simp
    have a2: "maximum sb0 = max_int d" using a sb(2) by simp
    have a3: "minimum sb0 \<le> spin_value sb0" using a by simp
    have a4: "spin_value sb0 \<le> maximum sb0" using a by simp
    have "min_int d \<le> bound sb0 v \<and> bound sb0 v \<le> max_int d"
      by (rule bound_in_range [OF a1 a2 a3 a4 x(2)])
    then show "min_int d \<le> x \<and> x \<le> max_int d" using x(1) by simp
  qed
  have e: "\<forall>vs s. case edit_values sb vs s of (sb', s') \<Rightarrow>
                 minimum sb' = minimum sb \<and> maximum sb' = maximum sb
               \<and> (s' = s \<or> (\<exists>x. min_int d \<le> x \<and> x \<le> max_int d \<and> s' name = Some (PyInt x)))
               \<and> (\<forall>k. k \<noteq> name \<longrightarrow> s' k = s k)"
    by (intro allI) (rule edit_values_in_range [OF sb(4) sb(1) sb(2) r])
  show ?thesis
    by (rule exI [of _ sb]) (intro conjI l sb(2) m r d e)
qed

theorem spinner_writes_stay_in_range_witness:
  "\<exists>sb. add_spinner_for [''limit'' \<mapsto> PyInt 30] [] 0 ''limit''
          (BoundedIntOption ''Campaign'' ''Pilots'' ''Pilot limit'' None 12 72)
          = Inr [(SpinBox sb, 0, 1, AlignRight)]
      \<and> minimum sb = 12 \<and> maximum sb = 72
      \<and> (case edit_values sb [500, 5] [''limit'' \<mapsto> PyInt 30] of
            (sb', s') \<Rightarrow> \<exists>x. 12 \<le> x \<and> x \<le> 72 \<and> s' ''limit'' = Some (PyInt x))"
proof -
  let ?d = "BoundedIntOption ''Campaign'' ''Pilots'' ''Pilot limit'' None 12 72"
  let ?s = "[''limit'' \<mapsto> PyInt 30]"
  obtain layout where a: "add_spinner_for ?s [] 0 ''limit'' ?d = Inr layout"
    by (simp add: add_spinner_for_def Let_def)
  from spinner_writes_stay_in_range [OF a] obtain sb where
    l: "layout = [] @ [(SpinBox sb, 0, 1, AlignRight)]"
    and hi: "maximum sb = max_int ?d"
    and lo: "min_int ?d \<le> max_int ?d \<longrightarrow> minimum sb = min_int ?d"
    and e: "\<forall>vs s. case edit_values sb vs s of (sb', s') \<Rightarrow>
                 minimum sb' = minimum sb \<and> maximum sb' = maximum sb
               \<and> (s' = s \<or> (\<exists>x. min_int ?d \<le> x \<and> x \<le> max_int ?d \<and> s' ''limit'' = Some (PyInt x)))
               \<and> (\<forall>k. k \<noteq> ''limit'' \<longrightarrow> s' k = s k)"
    by blast
  obtain sb' s' where r: "edit_values sb [500, 5] ?s = (sb', s')"
    by (cases "edit_values sb [500, 5] ?s")
  have "case edit_values sb [500, 5] ?s of (sb', s') \<Rightarrow>
                 minimum sb' = minimum sb \<and> maximum sb' = maximum sb
               \<and> (s' = ?s \<or> (\<exists>x. min_int ?d \<le> x \<and> x \<le> max_int ?d \<and> s' ''limit'' = Some (PyInt x)))
               \<and> (\<forall>k. k \<noteq> ''limit'' \<longrightarrow> s' k = ?s k)"
    using spec [OF spec [OF e, of "[500, 5]"], of ?s] .
  then have "s' = ?s \<or> (\<exists>x. min_int ?d \<le> x \<and> x \<le> max_int ?d \<and> s' ''limit'' = Some (PyInt x))"
    by (simp only: r prod.case)
  then have "\<exists>x. 12 \<le> x \<and> x \<le> 72 \<and> s' ''limit'' = Some (PyInt x)"
    by auto
  then have "case edit_values sb [500, 5] ?s of
            (sb', s') \<Rightarrow> \<exists>x. 12 \<le> x \<and> x \<le> 72 \<and> s' ''limit'' = Some (PyInt x)"
    by (simp only: r prod.case)
  moreover have "minimum sb = 12" "maximum sb = 72" using hi lo by simp_all
  ultimately show ?thesis using a l by (intro exI [of _ sb]) simp
qed

lemma spinner_example:
  "\<exists>sb. add_spinner_for [''limit'' \<mapsto> PyInt 30] [] 0 ''limit''
          (BoundedIntOption ''Campaign'' ''Pilots'' ''Pilot limit'' None 12 72)
          = Inr [(SpinBox sb, 0, 1, AlignRight)]
      \<and> snd (edit_values sb [500, 5] [''limit'' \<mapsto> PyInt 30]) ''limit'' = Some (PyInt 12)
      \<and> snd (edit_values sb [500] [''limit'' \<mapsto> PyInt 30]) ''limit'' = Some (PyInt 72)"
  by (simp add: add_spinner_for_def Let_def setValue_def setMaximum_def setMinimum_def setRange_def
        bound_def QSpinBox_new_def addWidget_def edit_value_def emit_def call_def spinner_on_changed_def)

subsection \<open>The combo box of a Choices option\<close>

lemma select_item_connected:
  assumes "currentIndexChanged cb0 = [combobox_on_changed_closure name]"
      and "0 \<le> i" and "i < int (length (items cb0))"
  shows "select_item cb0 i s =
           (cb0\<lparr>currentIndex := i\<rparr>,
            if i = currentIndex cb0 then s else s(name \<mapsto> snd (items cb0 ! nat i)))"
  using assms
  by (simp add: select_item_def setCurrentIndex_def emit_def call_def combobox_on_changed_def
        itemData_def Let_def)

lemma select_item_invalid:
  assumes "\<not> (0 \<le> i \<and> i < int (length (items cb0)))"
  shows "select_item cb0 i s = (cb0, s)"
  using assms by (auto simp: select_item_def)

lemma select_item_shows_stored:
  assumes "shows_stored name its cb0 s"
  shows "shows_stored name its (fst (select_item cb0 i s)) (snd (select_item cb0 i s))"
proof (cases "0 \<le> i \<and> i < int (length (items cb0))")
  case True
  then show ?thesis
    using assms by (simp add: shows_stored_def select_item_connected)
next
  case False
  then show ?thesis using assms by (simp add: select_item_invalid)
qed

lemma select_items_shows_stored:
  assumes "shows_stored name its cb0 s"
  shows "shows_stored name its (fst (select_items cb0 prior s)) (snd (select_items cb0 prior s))"
  using assms
proof (induction prior arbitrary: cb0 s)
  case Nil
  then show ?case by simp
next
  case (Cons i prior)
  from Cons.IH [OF select_item_shows_stored [OF Cons.prems, of i]]
  show ?case by (simp add: split_beta)
qed

lemma select_index_stores:
  assumes "shows_stored name its cb0 s" and "j < length its"
  shows "snd (select_item cb0 (int j) s) name = Some (snd (its ! j))"
proof -
  have c: "currentIndexChanged cb0 = [combobox_on_changed_closure name]" "items cb0 = its"
    using assms(1) by (simp_all add: shows_stored_def)
  have "select_item cb0 (int j) s =
           (cb0\<lparr>currentIndex := int j\<rparr>,
            if int j = currentIndex cb0 then s else s(name \<mapsto> snd (items cb0 ! nat (int j))))"
    using assms(2) c by (intro select_item_connected) simp_all
  moreover have "int j = currentIndex cb0 \<Longrightarrow> s name = Some (snd (its ! j))"
  proof -
    assume e: "int j = currentIndex cb0"
    then have "nat (currentIndex cb0) = j" by simp
    then show ?thesis using assms(1) by (simp add: shows_stored_def)
  qed
  ultimately show ?thesis using c by auto
qed

lemma select_text_stores:
  assumes "shows_stored name its cb0 s" and "distinct (map fst its)" and "(t, v) \<in> set its"
  shows "snd (select_text cb0 t s) name = Some v"
proof -
  let ?n = "length (takeWhile (\<lambda>item. fst item \<noteq> t) its)"
  have its: "items cb0 = its" using assms(1) by (simp add: shows_stored_def)
  have t: "t \<in> fst ` set its" using assms(3) by force
  have f: "findText cb0 t = int ?n" using t by (simp add: findText_def its find_index_from_eq)
  have n: "?n < length its" by (rule first_with_text(1) [OF t])
  have "its ! ?n = (t, v)" by (rule item_of_text [OF assms(2,3)])
  then show ?thesis
    using select_index_stores [OF assms(1) n] by (simp add: select_text_def f)
qed

text \<open>
  C3. For a ChoicesOption field that the binder has bound (the choices are a dict: no
  display text occurs twice): the combo box holds one item per \<open>(text, value)\<close> entry
  of the choices, in their iteration order, each with its value as item data; the
  current text is \<open>text_for_value\<close> of the stored value; and, after any selections the
  user has made before, picking the item of a pair \<open>(text, value)\<close> leaves \<open>value\<close>
  stored in the field, and so does picking the text that \<open>text_for_value(value)\<close>
  returns.
\<close>

theorem combobox_items_selection_and_round_trip:
  assumes "add_combobox_for settings self row name d = Inr layout"
      and "distinct (map fst (choices d))"
  shows "\<exists>cb stored. layout = self @ [(ComboBox cb, row, 1, AlignRight)]
           \<and> settings name = Some stored
           \<and> items cb = choices d
           \<and> text_for_value (choices d) stored = Some (currentText cb)
           \<and> (\<forall>prior t v. (t, v) \<in> set (choices d) \<longrightarrow>
                 (case select_items cb prior settings of (cb1, s1) \<Rightarrow>
                    snd (select_text cb1 t s1) name = Some v
                  \<and> (\<exists>t'. text_for_value (choices d) v = Some t'
                          \<and> snd (select_text cb1 t' s1) name = Some v)))"
proof -
  from add_combobox_for_Inr [OF assms(1)] obtain stored t cb where
    s: "settings name = Some stored" and t: "text_for_value (choices d) stored = Some t"
    and it: "items cb = choices d"
    and ci: "currentIndex cb = int (length (takeWhile (\<lambda>item. fst item \<noteq> t) (choices d)))"
    and sl: "currentIndexChanged cb = [combobox_on_changed_closure name]"
    and l: "layout = self @ [(ComboBox cb, row, 1, AlignRight)]"
    by blast
  let ?n = "length (takeWhile (\<lambda>item. fst item \<noteq> t) (choices d))"
  have mem: "(t, stored) \<in> set (choices d)" by (rule text_for_value_Some [OF t])
  then have tin: "t \<in> fst ` set (choices d)" by force
  have n: "?n < length (choices d)" by (rule first_with_text(1) [OF tin])
  have at: "choices d ! ?n = (t, stored)" by (rule item_of_text [OF assms(2) mem])
  have cur: "currentText cb = t" using n at by (simp add: currentText_def it ci)
  have inv: "shows_stored name (choices d) cb settings"
    using s it ci sl n at by (simp add: shows_stored_def)
  have sel: "\<forall>prior t v. (t, v) \<in> set (choices d) \<longrightarrow>
                 (case select_items cb prior settings of (cb1, s1) \<Rightarrow>
                    snd (select_text cb1 t s1) name = Some v
                  \<and> (\<exists>t'. text_for_value (choices d) v = Some t'
                          \<and> snd (select_text cb1 t' s1) name = Some v))"
  proof (intro allI impI)
    fix prior t v assume tv: "(t, v) \<in> set (choices d)"
    obtain cb1 s1 where r: "select_items cb prior settings = (cb1, s1)"
      by (cases "select_items cb prior settings")
    have inv1: "shows_stored name (choices d) cb1 s1"
      using select_items_shows_stored [OF inv, of prior] by (simp add: r)
    have a: "snd (select_text cb1 t s1) name = Some v"
      by (rule select_text_stores [OF inv1 assms(2) tv])
    have "v \<in> snd ` set (choices d)" using tv by force
    from text_for_value_total [OF this] obtain t' where t': "text_for_value (choices d) v = Some t'"
      by blast
    have "(t', v) \<in> set (choices d)" by (rule text_for_value_Some [OF t'])
    from select_text_stores [OF inv1 assms(2) this]
    have b: "snd (select_text cb1 t' s1) name = Some v" .
    show "case select_items cb prior settings of (cb1, s1) \<Rightarrow>
                    snd (select_text cb1 t s1) name = Some v
                  \<and> (\<exists>t'. text_for_value (choices d) v = Some t'
                          \<and> snd (select_text cb1 t' s1) name = Some v)"
      using a b t' by (simp add: r)
  qed
  show ?thesis
    by (intro exI [of _ cb] exI [of _ stored] conjI l s it sel) (simp add: t cur)
qed

theorem combobox_round_trip_witness:
  "\<exists>cb. add_combobox_for [''start'' \<mapsto> PyStr ''warm''] [] 0 ''start''
          (ChoicesOption ''Mission'' ''AI'' ''Start type'' None
             [(''Cold'', PyStr ''cold''), (''Warm'', PyStr ''warm''), (''Hot'', PyStr ''warm'')])
          = Inr [(ComboBox cb, 0, 1, AlignRight)]
      \<and> items cb = [(''Cold'', PyStr ''cold''), (''Warm'', PyStr ''warm''), (''Hot'', PyStr ''warm'')]
      \<and> currentText cb = ''Warm''
      \<and> snd (select_text cb ''Cold'' [''start'' \<mapsto> PyStr ''warm'']) ''start'' = Some (PyStr ''cold'')
      \<and> snd (select_text cb ''Hot'' [''start'' \<mapsto> PyStr ''warm'']) ''start'' = Some (PyStr ''warm'')"
proof -
  let ?c = "[(''Cold'', PyStr ''cold''), (''Warm'', PyStr ''warm''), (''Hot'', PyStr ''warm'')]"
  let ?d = "ChoicesOption ''Mission'' ''AI'' ''Start type'' None ?c"
  let ?s = "[''start'' \<mapsto> PyStr ''warm'']"
  have tv: "text_for_value ?c (PyStr ''warm'') = Some ''Warm''" by simp
  have "list_all (\<lambda>item. qvariant (snd item) = Inr (snd item)) ?c" by simp
  from add_combobox_items_accepted [OF this] obtain cb0 where
    "add_combobox_items QComboBox_new ?c = Inr cb0" by blast
  then obtain layout where a: "add_combobox_for ?s [] 0 ''start'' ?d = Inr layout"
    using tv by (simp add: add_combobox_for_def Let_def)
  have dist: "distinct (map fst (choices ?d))" by simp
  from combobox_items_selection_and_round_trip [OF a dist] obtain cb stored where
    l: "layout = [] @ [(ComboBox cb, 0, 1, AlignRight)]"
    and s: "?s ''start'' = Some stored"
    and it: "items cb = choices ?d"
    and cur: "text_for_value (choices ?d) stored = Some (currentText cb)"
    and sel: "\<forall>prior t v. (t, v) \<in> set (choices ?d) \<longrightarrow>
                 (case select_items cb prior ?s of (cb1, s1) \<Rightarrow>
                    snd (select_text cb1 t s1) ''start'' = Some v
                  \<and> (\<exists>t'. text_for_value (choices ?d) v = Some t'
                          \<and> snd (select_text cb1 t' s1) ''start'' = Some v))"
    by blast
  have st: "stored = PyStr ''warm''" using s by simp
  have c: "currentText cb = ''Warm''" using cur tv by (simp add: st)
  have m1: "(''Cold'', PyStr ''cold'') \<in> set (choices ?d)" by simp
  have m2: "(''Hot'', PyStr ''warm'') \<in> set (choices ?d)" by simp
  from spec [OF spec [OF spec [OF sel, of "[]"], of "''Cold''"], of "PyStr ''cold''"] m1
  have 1: "snd (select_text cb ''Cold'' ?s) ''start'' = Some (PyStr ''cold'')" by simp
  from spec [OF spec [OF spec [OF sel, of "[]"], of "''Hot''"], of "PyStr ''warm''"] m2
  have 2: "snd (select_text cb ''Hot'' ?s) ''start'' = Some (PyStr ''warm'')" by simp
  show ?thesis using a l it c 1 2 by (intro exI [of _ cb]) simp
qed

subsection \<open>The label of a row\<close>



end
